theory Spec2Isabelle
  imports Complex_Main "HOL-Library.Char_ord" "HOL-Library.List_Lexorder"
begin

section \<open>Numbers\<close>

text \<open>
  The metrics are computed on Python and NumPy floating-point numbers. They are modelled
  here as exact reals extended with the three special values of IEEE arithmetic: rounding
  and signed zeros are abstracted away, the not-a-number value and the infinities are kept,
  because the code produces and tests them.
\<close>

datatype pyfloat = Num real | PosInf | NegInf | NaN

datatype py_error = ZeroDivisionError

text \<open>Python's \<^verbatim>\<open>a <= b\<close> and \<^verbatim>\<open>a == b\<close> on floats: every comparison with NaN is false.\<close>

fun pf_le :: "pyfloat \<Rightarrow> pyfloat \<Rightarrow> bool" where
  "pf_le NaN b = False"
| "pf_le a NaN = False"
| "pf_le (Num a) (Num b) = (a \<le> b)"
| "pf_le NegInf b = True"
| "pf_le a PosInf = True"
| "pf_le PosInf b = False"
| "pf_le a NegInf = False"

fun pf_eq :: "pyfloat \<Rightarrow> pyfloat \<Rightarrow> bool" where
  "pf_eq NaN b = False"
| "pf_eq a NaN = False"
| "pf_eq a b = (a = b)"

fun pf_neg :: "pyfloat \<Rightarrow> pyfloat" where
  "pf_neg (Num a) = Num (- a)"
| "pf_neg PosInf = NegInf"
| "pf_neg NegInf = PosInf"
| "pf_neg NaN = NaN"

text \<open>Python's \<^verbatim>\<open>a - b\<close> on floats; it never raises.\<close>

fun pf_sub :: "pyfloat \<Rightarrow> pyfloat \<Rightarrow> pyfloat" where
  "pf_sub NaN b = NaN"
| "pf_sub a NaN = NaN"
| "pf_sub (Num a) (Num b) = Num (a - b)"
| "pf_sub PosInf PosInf = NaN"
| "pf_sub NegInf NegInf = NaN"
| "pf_sub PosInf b = PosInf"
| "pf_sub NegInf b = NegInf"
| "pf_sub (Num a) b = pf_neg b"

text \<open>
  Python's \<^verbatim>\<open>a / b\<close> on floats: a zero divisor raises \<^verbatim>\<open>ZeroDivisionError\<close>.
\<close>

fun pf_truediv :: "pyfloat \<Rightarrow> pyfloat \<Rightarrow> py_error + pyfloat" where
  "pf_truediv NaN b = (if b = Num 0 then Inl ZeroDivisionError else Inr NaN)"
| "pf_truediv a NaN = Inr NaN"
| "pf_truediv (Num a) (Num b) = (if b = 0 then Inl ZeroDivisionError else Inr (Num (a / b)))"
| "pf_truediv (Num a) b = Inr (Num 0)"
| "pf_truediv a (Num b) =
     (if b = 0 then Inl ZeroDivisionError
      else if 0 < b then Inr a else Inr (pf_neg a))"
| "pf_truediv a b = Inr NaN"

section \<open>Table operations of the data-frame library\<close>

text \<open>
  A table is the list of its rows, in row order. The operations below are the ones the two
  modules call on tables and columns; a nullable column holds \<open>None\<close> for a missing
  value.
\<close>

text \<open>
  \<^verbatim>\<open>pd.merge(left, right, on=key)\<close>, an inner join: every pair of a left and a right row
  with equal keys, in the order of the left rows. Nothing checks that a key is unique on
  either side.
\<close>

definition merge_inner :: "('l \<Rightarrow> 'k) \<Rightarrow> ('r \<Rightarrow> 'k) \<Rightarrow> 'l list \<Rightarrow> 'r list \<Rightarrow> ('l \<times> 'r) list" where
  "merge_inner lkey rkey left right =
     concat (map (\<lambda>l. map (Pair l) (filter (\<lambda>r. rkey r = lkey l) right)) left)"

text \<open>
  \<^verbatim>\<open>groupby(key)[col]\<close>: one pass over the rows collects the values of each key, a row
  with a missing key is dropped, and the groups are then ordered by key.
\<close>

fun group_insert :: "'k \<Rightarrow> 'v \<Rightarrow> ('k \<times> 'v list) list \<Rightarrow> ('k \<times> 'v list) list" where
  "group_insert k v [] = [(k, [v])]"
| "group_insert k v ((k', vs) # gs) =
     (if k = k' then (k', vs @ [v]) # gs else (k', vs) # group_insert k v gs)"

definition group_rows :: "('r \<Rightarrow> 'k option) \<Rightarrow> ('r \<Rightarrow> 'v) \<Rightarrow> 'r list \<Rightarrow> ('k \<times> 'v list) list" where
  "group_rows key val rows =
     foldl (\<lambda>gs r. case key r of None \<Rightarrow> gs | Some k \<Rightarrow> group_insert k (val r) gs) [] rows"

definition groupby :: "('r \<Rightarrow> 'k::linorder option) \<Rightarrow> ('r \<Rightarrow> 'v) \<Rightarrow> 'r list \<Rightarrow> ('k \<times> 'v list) list" where
  "groupby key val rows = sort_key fst (group_rows key val rows)"

text \<open>
  \<^verbatim>\<open>.mean()\<close> of a numeric column skips the missing values and is not-a-number when no
  value is left; \<^verbatim>\<open>.sum()\<close> adds the values up.
\<close>

fun mean_acc :: "real \<times> nat \<Rightarrow> real option list \<Rightarrow> real \<times> nat" where
  "mean_acc (s, n) [] = (s, n)"
| "mean_acc (s, n) (None # xs) = mean_acc (s, n) xs"
| "mean_acc (s, n) (Some x # xs) = mean_acc (s + x, Suc n) xs"

definition series_mean :: "real option list \<Rightarrow> pyfloat" where
  "series_mean xs = (case mean_acc (0, 0) xs of (s, n) \<Rightarrow> if n = 0 then NaN else Num (s / real n))"

definition groupby_sum :: "('r \<Rightarrow> 'k::linorder option) \<Rightarrow> ('r \<Rightarrow> real) \<Rightarrow> 'r list \<Rightarrow> ('k \<times> real) list" where
  "groupby_sum key val rows = map (\<lambda>(k, vs). (k, sum_list vs)) (groupby key val rows)"

definition groupby_mean :: "('r \<Rightarrow> 'k::linorder option) \<Rightarrow> ('r \<Rightarrow> real option) \<Rightarrow> 'r list \<Rightarrow> ('k \<times> pyfloat) list" where
  "groupby_mean key val rows = map (\<lambda>(k, vs). (k, series_mean vs)) (groupby key val rows)"

text \<open>\<^verbatim>\<open>.drop_duplicates()\<close> keeps the first occurrence of every row.\<close>

fun drop_duplicates :: "'a list \<Rightarrow> 'a list" where
  "drop_duplicates [] = []"
| "drop_duplicates (x # xs) = x # drop_duplicates (filter (\<lambda>y. y \<noteq> x) xs)"

text \<open>\<^verbatim>\<open>.sort_values(ascending=False)\<close> on a keyed column of numbers.\<close>

definition sort_values_desc :: "('k \<times> real) list \<Rightarrow> ('k \<times> real) list" where
  "sort_values_desc kvs = sort_key (\<lambda>kv. - snd kv) kvs"

text \<open>
  \<^verbatim>\<open>.pct_change()\<close> computes \<^verbatim>\<open>s / s.shift(1) - 1\<close> element by element: the first entry
  has no predecessor and is not-a-number, and the array division yields an infinity or
  not-a-number on a zero divisor instead of raising.
\<close>

definition np_truediv :: "real \<Rightarrow> real \<Rightarrow> pyfloat" where
  "np_truediv a b =
     (if b \<noteq> 0 then Num (a / b) else if 0 < a then PosInf else if a < 0 then NegInf else NaN)"

fun pct_change :: "real list \<Rightarrow> pyfloat list" where
  "pct_change [] = []"
| "pct_change (x # xs) =
     NaN # map (\<lambda>(cur, prev). pf_sub (np_truediv cur prev) (Num 1)) (zip xs (x # xs))"

text \<open>
  \<^verbatim>\<open>.value_counts(normalize=True)\<close>: the number of occurrences of each value, most
  frequent first, divided by the number of values; \<^verbatim>\<open>.sort_index()\<close> then orders by value.
\<close>

definition value_counts_normalized :: "'k list \<Rightarrow> ('k \<times> real) list" where
  "value_counts_normalized xs =
     (let counts = sort_key (\<lambda>kc. - int (snd kc))
                     (map (\<lambda>(k, vs). (k, length vs)) (group_rows Some (\<lambda>x. x) xs));
          total = sum_list (map snd counts)
      in map (\<lambda>(k, c). (k, real c / real total)) counts)"

definition sort_index :: "('k::linorder \<times> 'v) list \<Rightarrow> ('k \<times> 'v) list" where
  "sort_index kvs = sort_key fst kvs"

section \<open>Timestamps\<close>

text \<open>
  A timestamp is a number of nanoseconds since the epoch, a nullable timestamp column holds
  \<open>None\<close> for not-a-time. The calendar year and month of a timestamp are those of its
  day number in the proleptic Gregorian calendar.
\<close>

type_synonym timestamp = int

definition ns_per_day :: int where
  "ns_per_day = 86400000000000"

definition civil_from_days :: "int \<Rightarrow> int \<times> int" where
  "civil_from_days days =
     (let z = days + 719468;
          era = z div 146097;
          doe = z mod 146097;
          yoe = (doe - doe div 1460 + doe div 36524 - doe div 146096) div 365;
          doy = doe - (365 * yoe + yoe div 4 - yoe div 100);
          mp = (5 * doy + 2) div 153;
          m = (if mp < 10 then mp + 3 else mp - 9);
          y = yoe + era * 400
      in (if m \<le> 2 then y + 1 else y, m))"

definition dt_year :: "timestamp option \<Rightarrow> int option" where
  "dt_year t = map_option (\<lambda>ns. fst (civil_from_days (ns div ns_per_day))) t"

definition dt_month :: "timestamp option \<Rightarrow> int option" where
  "dt_month t = map_option (\<lambda>ns. snd (civil_from_days (ns div ns_per_day))) t"

text \<open>The whole days of a time difference, \<^verbatim>\<open>.dt.days\<close>: rounded down, missing when an end is.\<close>

definition timedelta_days :: "timestamp option \<Rightarrow> timestamp option \<Rightarrow> int option" where
  "timedelta_days later earlier =
     (case (later, earlier) of
        (Some l, Some e) \<Rightarrow> Some ((l - e) div ns_per_day)
      | _ \<Rightarrow> None)"

section \<open>Tables\<close>



record product =
  p_product_id :: string
  p_product_category_name :: "string option"

record review =
  r_review_id :: string
  r_order_id :: string
  r_review_score :: int

text \<open>The flat sales table, and its extensions by the two delivery columns.\<close>

record sales_row =
  order_id :: string
  order_item_id :: int
  product_id :: string
  price :: real
  order_status :: string
  order_purchase_timestamp :: "timestamp option"
  order_delivered_customer_date :: "timestamp option"
  month :: "int option"
  year :: "int option"

record sales_speed_row = sales_row +
  delivery_speed_days :: "int option"

record sales_time_row = sales_speed_row +
  delivery_time :: string

section \<open>Sales assembler\<close>


text \<open>
  \<^verbatim>\<open>add_delivery_speed(sales_data)\<close>: a copy of the table with the whole days from purchase
  to delivery in a new column.
\<close>

definition add_delivery_speed :: "sales_row list \<Rightarrow> sales_speed_row list" where
  "add_delivery_speed sales_data =
     map (\<lambda>r. sales_row.extend r
            (sales_speed_row.fields
               (timedelta_days (order_delivered_customer_date r) (order_purchase_timestamp r))))
         sales_data"

section \<open>Sales assembler: delivery speed categories\<close>

text \<open>
  \<^verbatim>\<open>categorize_delivery_speed(days)\<close> of \<^verbatim>\<open>data_loader.py\<close>: two guards
  \<^verbatim>\<open>days <= 3\<close> and \<^verbatim>\<open>days <= 7\<close>, and a fall-through.
\<close>

definition categorize_delivery_speed :: "pyfloat \<Rightarrow> string" where
  "categorize_delivery_speed days =
     (if pf_le days (Num 3) then ''1-3 days''
      else if pf_le days (Num 7) then ''4-7 days''
      else ''8+ days'')"

section \<open>Metrics engine: revenue and orders\<close>

text \<open>\<^verbatim>\<open>calculate_total_revenue\<close>: the sum of the price column.\<close>

definition calculate_total_revenue :: "'a sales_row_scheme list \<Rightarrow> real" where
  "calculate_total_revenue sales_data = sum_list (map price sales_data)"

text \<open>\<^verbatim>\<open>calculate_monthly_revenue\<close>: \<^verbatim>\<open>groupby("month")["price"].sum()\<close>.\<close>

definition calculate_monthly_revenue :: "'a sales_row_scheme list \<Rightarrow> (int \<times> real) list" where
  "calculate_monthly_revenue sales_data = groupby_sum month price sales_data"

text \<open>\<^verbatim>\<open>calculate_monthly_growth\<close>: \<^verbatim>\<open>pct_change()\<close> of the monthly revenue, on the same index.\<close>

definition calculate_monthly_growth :: "'a sales_row_scheme list \<Rightarrow> (int \<times> pyfloat) list" where
  "calculate_monthly_growth sales_data =
     (let monthly_rev = calculate_monthly_revenue sales_data
      in zip (map fst monthly_rev) (pct_change (map snd monthly_rev)))"

text \<open>\<^verbatim>\<open>calculate_average_order_value\<close>: \<^verbatim>\<open>groupby("order_id")["price"].sum().mean()\<close>.\<close>

definition calculate_average_order_value :: "'a sales_row_scheme list \<Rightarrow> pyfloat" where
  "calculate_average_order_value sales_data =
     series_mean (map (\<lambda>kv. Some (snd kv)) (groupby_sum (\<lambda>r. Some (order_id r)) price sales_data))"

section \<open>Metrics engine: products\<close>

text \<open>
  \<^verbatim>\<open>calculate_category_revenue\<close>: the catalog is the left table of the join; the rows are
  grouped by the nullable category name, summed and sorted from the highest sum down.
\<close>

definition calculate_category_revenue ::
    "'a sales_row_scheme list \<Rightarrow> product list \<Rightarrow> (string \<times> real) list" where
  "calculate_category_revenue sales_data products =
     (let merged = merge_inner p_product_id product_id products sales_data
      in sort_values_desc
           (groupby_sum (\<lambda>(p, s). p_product_category_name p) (\<lambda>(p, s). price s) merged))"

section \<open>Metrics engine: customer experience\<close>

text \<open>
  \<^verbatim>\<open>calculate_review_score_distribution\<close>: the reviews of the orders of the sales table, the
  normalised counts of their scores, ordered by score.
\<close>

definition calculate_review_score_distribution ::
    "'a sales_row_scheme list \<Rightarrow> review list \<Rightarrow> (int \<times> real) list" where
  "calculate_review_score_distribution sales_data reviews =
     (let order_ids = drop_duplicates (map order_id sales_data);
          relevant = filter (\<lambda>rv. r_order_id rv \<in> set order_ids) reviews
      in sort_index (value_counts_normalized (map r_review_score relevant)))"

text \<open>
  \<^verbatim>\<open>calculate_delivery_review_correlation\<close>: the join with the reviews on the only shared
  column, the order identifier; the four columns without duplicate rows; the mean score of
  each delivery category.
\<close>

definition calculate_delivery_review_correlation ::
    "'a sales_time_row_scheme list \<Rightarrow> review list \<Rightarrow> (string \<times> pyfloat) list" where
  "calculate_delivery_review_correlation sales_data_with_speed reviews =
     (let merged = merge_inner order_id r_order_id sales_data_with_speed reviews;
          per_order = drop_duplicates
            (map (\<lambda>(s, rv). (order_id s, delivery_speed_days s, delivery_time s, r_review_score rv))
               merged)
      in groupby_mean (\<lambda>(oid, days, dt, score). Some dt)
           (\<lambda>(oid, days, dt, score). Some (real_of_int score)) per_order)"

text \<open>\<^verbatim>\<open>calculate_average_delivery_time\<close>: the mean of the delivery-speed column.\<close>

definition calculate_average_delivery_time :: "'a sales_speed_row_scheme list \<Rightarrow> pyfloat" where
  "calculate_average_delivery_time sales_data_with_speed =
     series_mean (map (\<lambda>r. map_option real_of_int (delivery_speed_days r)) sales_data_with_speed)"

section \<open>Metrics engine: revenue growth\<close>

text \<open>
  \<^verbatim>\<open>calculate_revenue_growth(current_revenue, previous_revenue)\<close> of
  \<^verbatim>\<open>business_metrics.py\<close>: the guard \<^verbatim>\<open>previous_revenue == 0\<close> returns
  \<^verbatim>\<open>float("nan")\<close>, otherwise the quotient is computed.
\<close>

definition calculate_revenue_growth :: "pyfloat \<Rightarrow> pyfloat \<Rightarrow> py_error + pyfloat" where
  "calculate_revenue_growth current_revenue previous_revenue =
     (if pf_eq previous_revenue (Num 0) then Inr NaN
      else pf_truediv (pf_sub current_revenue previous_revenue) previous_revenue)"

section \<open>Example tables\<close>

text \<open>Rows for the concrete instances of the properties below.\<close>

definition example_sale :: "string \<Rightarrow> real \<Rightarrow> int \<Rightarrow> sales_row" where
  "example_sale oid p m =
     \<lparr> order_id = oid, order_item_id = 1, product_id = ''p1'', price = p,
       order_status = ''delivered'', order_purchase_timestamp = None,
       order_delivered_customer_date = None, month = Some m, year = Some 2023 \<rparr>"

definition example_timed_sale :: "string \<Rightarrow> timestamp option \<Rightarrow> timestamp option \<Rightarrow> sales_row" where
  "example_timed_sale oid purchased delivered =
     \<lparr> order_id = oid, order_item_id = 1, product_id = ''p1'', price = 10,
       order_status = ''delivered'', order_purchase_timestamp = purchased,
       order_delivered_customer_date = delivered,
       month = dt_month purchased, year = dt_year purchased \<rparr>"

definition example_review :: "string \<Rightarrow> int \<Rightarrow> review" where
  "example_review oid score = \<lparr> r_review_id = ''r'', r_order_id = oid, r_review_score = score \<rparr>"

definition example_product :: "string \<Rightarrow> string option \<Rightarrow> product" where
  "example_product pid cat = \<lparr> p_product_id = pid, p_product_category_name = cat \<rparr>"

definition example_product_sale :: "string \<Rightarrow> real \<Rightarrow> sales_row" where
  "example_product_sale pid p =
     \<lparr> order_id = ''o1'', order_item_id = 1, product_id = pid, price = p,
       order_status = ''delivered'', order_purchase_timestamp = None,
       order_delivered_customer_date = None, month = Some 1, year = Some 2023 \<rparr>"



definition example_delivery :: "string \<Rightarrow> int \<Rightarrow> real \<Rightarrow> int option \<Rightarrow> string \<Rightarrow> sales_time_row" where
  "example_delivery oid n p days cat =
     \<lparr> order_id = oid, order_item_id = n, product_id = ''p1'', price = p,
       order_status = ''delivered'', order_purchase_timestamp = None,
       order_delivered_customer_date = None, month = Some 1, year = Some 2023,
       delivery_speed_days = days, delivery_time = cat \<rparr>"

section \<open>Properties\<close>

subsection \<open>Grouping and means\<close>

lemma map_filter_append: "List.map_filter f (xs @ ys) = List.map_filter f xs @ List.map_filter f ys"
  by (simp add: List.map_filter_def)

lemma set_map_filter: "set (List.map_filter f xs) = {k. \<exists>x\<in>set xs. f x = Some k}"
  by (induction xs) (auto split: option.splits)

lemma map_of_group_insert:
  "map_of (group_insert k v gs) =
     (map_of gs)(k \<mapsto> (case map_of gs k of None \<Rightarrow> [v] | Some vs \<Rightarrow> vs @ [v]))"
  by (induction gs) (auto simp: fun_eq_iff)

lemma map_fst_group_insert:
  "map fst (group_insert k v gs) =
     (if k \<in> fst ` set gs then map fst gs else map fst gs @ [k])"
  by (induction gs) force+

lemma keys_group_insert: "set (map fst (group_insert k v gs)) = insert k (set (map fst gs))"
  by (auto simp: map_fst_group_insert)

lemma distinct_group_insert:
  "distinct (map fst gs) \<Longrightarrow> distinct (map fst (group_insert k v gs))"
  by (simp add: map_fst_group_insert)

lemma group_rows_snoc:
  "group_rows key val (rows @ [r]) =
     (case key r of None \<Rightarrow> group_rows key val rows
      | Some k \<Rightarrow> group_insert k (val r) (group_rows key val rows))"
  by (cases "key r") (simp_all add: group_rows_def)

lemma keys_group_rows:
  "set (map fst (group_rows key val rows)) = set (List.map_filter key rows)"
proof (induction rows rule: rev_induct)
  case Nil
  then show ?case by (simp add: group_rows_def)
next
  case (snoc r rows)
  then show ?case
    by (cases "key r") (simp_all add: group_rows_snoc keys_group_insert map_filter_append del: set_map)
qed

lemma distinct_group_rows: "distinct (map fst (group_rows key val rows))"
proof (induction rows rule: rev_induct)
  case Nil
  then show ?case by (simp add: group_rows_def)
next
  case (snoc r rows)
  then show ?case
    by (cases "key r") (simp_all add: group_rows_snoc distinct_group_insert)
qed

lemma map_of_group_rows:
  "map_of (group_rows key val rows) k =
     (if k \<in> set (List.map_filter key rows)
      then Some (map val (filter (\<lambda>r. key r = Some k) rows)) else None)"
proof (induction rows rule: rev_induct)
  case Nil
  then show ?case by (simp add: group_rows_def)
next
  case (snoc r rows)
  show ?case
  proof (cases "key r")
    case None
    then show ?thesis using snoc by (simp add: group_rows_snoc map_filter_append)
  next
    case (Some k')
    then show ?thesis using snoc
      by (auto simp: group_rows_snoc map_filter_append map_of_group_insert set_map_filter
            filter_empty_conv split: if_splits)
  qed
qed

lemma set_group_rows:
  "set (group_rows key val rows) =
     (\<lambda>k. (k, map val (filter (\<lambda>r. key r = Some k) rows))) ` set (List.map_filter key rows)"
proof -
  have "(k, vs) \<in> set (group_rows key val rows) \<longleftrightarrow>
        k \<in> set (List.map_filter key rows) \<and> vs = map val (filter (\<lambda>r. key r = Some k) rows)" for k vs
    using map_of_eq_Some_iff [OF distinct_group_rows, of key val rows k vs]
    by (auto simp: map_of_group_rows split: if_splits)
  then show ?thesis by (auto simp: image_iff)
qed

lemma groupby_eq:
  "groupby key val rows =
     map (\<lambda>k. (k, map val (filter (\<lambda>r. key r = Some k) rows)))
       (sort (remdups (List.map_filter key rows)))"
  (is "?L = ?R")
proof (rule map_sorted_distinct_set_unique [where f = fst])
  let ?g = "\<lambda>k. (k, map val (filter (\<lambda>r. key r = Some k) rows))"
  have set_eq: "set ?L = set ?R"
    by (simp add: groupby_def set_group_rows)
  have fstR: "map fst ?R = sort (remdups (List.map_filter key rows))"
    by (simp add: comp_def)
  show "set ?L = set ?R" by (rule set_eq)
  show "inj_on fst (set ?L \<union> set ?R)"
    unfolding set_eq by (auto simp: inj_on_def)
  show "sorted (map fst ?L)" by (simp add: groupby_def)
  show "sorted (map fst ?R)" unfolding fstR by simp
  show "distinct (map fst ?R)" unfolding fstR by simp
  have "distinct (map fst (group_rows key val rows))" by (rule distinct_group_rows)
  then have "inj_on fst (set (group_rows key val rows))" "distinct (group_rows key val rows)"
    by (simp_all add: distinct_map)
  then show "distinct (map fst ?L)"
    by (simp add: distinct_map groupby_def)
qed

lemma mean_acc_eq:
  "mean_acc (s, n) xs =
     (s + sum_list (List.map_filter (\<lambda>x. x) xs), n + length (List.map_filter (\<lambda>x. x) xs))"
proof (induction xs arbitrary: s n)
  case Nil
  then show ?case by simp
next
  case (Cons x xs)
  then show ?case by (cases x) simp_all
qed

lemma series_mean_eq:
  "series_mean xs =
     (let vs = List.map_filter (\<lambda>x. x) xs
      in if vs = [] then NaN else Num (sum_list vs / real (length vs)))"
  by (simp add: series_mean_def mean_acc_eq Let_def)

lemma map_filter_Some: "List.map_filter (\<lambda>x. Some (f x)) xs = map f xs"
  by (induction xs) simp_all

lemma map_filter_map: "List.map_filter f (map g xs) = List.map_filter (\<lambda>x. f (g x)) xs"
  by (simp add: List.map_filter_def filter_map comp_def)

lemma groupby_sum_eq:
  "groupby_sum key val rows =
     map (\<lambda>k. (k, sum_list (map val (filter (\<lambda>r. key r = Some k) rows))))
       (sort (remdups (List.map_filter key rows)))"
  by (simp add: groupby_sum_def groupby_eq comp_def)

subsection \<open>Average order value\<close>

lemma average_order_value_eq:
  "calculate_average_order_value sales_data =
     (if sales_data = [] then NaN
      else Num ((\<Sum>oid \<in> order_id ` set sales_data.
                   sum_list (map price (filter (\<lambda>r. order_id r = oid) sales_data)))
                / real (card (order_id ` set sales_data))))"
proof -
  let ?ks = "sort (remdups (map order_id sales_data))"
  let ?tot = "\<lambda>oid. sum_list (map price (filter (\<lambda>r. order_id r = oid) sales_data))"
  have 1: "map (\<lambda>kv. Some (snd kv)) (groupby_sum (\<lambda>r. Some (order_id r)) price sales_data)
           = map (\<lambda>k. Some (?tot k)) ?ks"
    by (simp add: groupby_sum_eq map_filter_Some comp_def)
  have 2: "sum_list (map ?tot ?ks) = sum ?tot (order_id ` set sales_data)"
    using sum_list_distinct_conv_sum_set [of ?ks ?tot] by simp
  have 3: "length ?ks = card (order_id ` set sales_data)"
    using length_remdups_card_conv [of "map order_id sales_data"] by simp
  have 4: "?ks = [] \<longleftrightarrow> sales_data = []"
    by (metis length_0_conv length_sort list.map_disc_iff remdups_eq_nil_iff)
  show ?thesis
    unfolding calculate_average_order_value_def 1
    by (simp add: series_mean_eq map_filter_map map_filter_Some Let_def 2 3 4 del: set_map length_sort)
qed

text \<open>
  Claim C1. The average order value is the mean, over the distinct order identifiers, of the
  sum of the prices of each order's rows (not-a-number on an empty table). For an order
  with items priced 10 and 20 and another order with one item priced 15 it is 22.5, while
  the revenue per item is 15.
\<close>

theorem average_order_value_spec:
  "calculate_average_order_value sales_data =
     (if sales_data = [] then NaN
      else Num ((\<Sum>oid \<in> order_id ` set sales_data.
                   sum_list (map price (filter (\<lambda>r. order_id r = oid) sales_data)))
                / real (card (order_id ` set sales_data))))
   \<and> (\<forall>r1 r2 r3. order_id r1 = order_id r2 \<and> order_id r3 \<noteq> order_id r1
          \<and> price r1 = 10 \<and> price r2 = 20 \<and> price r3 = 15
        \<longrightarrow> calculate_average_order_value [r1, r2, r3] = Num 22.5
          \<and> calculate_total_revenue [r1, r2, r3] / 3 = 15)"
proof (intro conjI allI impI)
  show "calculate_average_order_value sales_data =
     (if sales_data = [] then NaN
      else Num ((\<Sum>oid \<in> order_id ` set sales_data.
                   sum_list (map price (filter (\<lambda>r. order_id r = oid) sales_data)))
                / real (card (order_id ` set sales_data))))"
    by (rule average_order_value_eq)
next
  fix r1 r2 r3 :: "'b sales_row_scheme"
  assume h: "order_id r1 = order_id r2 \<and> order_id r3 \<noteq> order_id r1
          \<and> price r1 = 10 \<and> price r2 = 20 \<and> price r3 = 15"
  then have ne: "order_id r2 \<noteq> order_id r3" "order_id r3 \<noteq> order_id r2"
    by auto
  from h ne show "calculate_average_order_value [r1, r2, r3] = Num 22.5"
    by (simp add: average_order_value_eq)
  from h show "calculate_total_revenue [r1, r2, r3] / 3 = 15"
    by (simp add: calculate_total_revenue_def)
qed

theorem average_order_value_spec_witness:
  "calculate_average_order_value
     [example_sale ''a'' 10 1, example_sale ''a'' 20 1, example_sale ''b'' 15 1] = Num 22.5
   \<and> calculate_total_revenue
     [example_sale ''a'' 10 1, example_sale ''a'' 20 1, example_sale ''b'' 15 1] / 3 = 15"
  using average_order_value_spec [of "[]::sales_row list", THEN conjunct2, rule_format,
      of "example_sale ''a'' 10 1" "example_sale ''a'' 20 1" "example_sale ''b'' 15 1"]
  by (simp add: example_sale_def)


subsection \<open>Revenue growth\<close>

lemma pf_eq_zero_iff: "pf_eq p (Num 0) \<longleftrightarrow> p = Num 0"
  by (cases p) simp_all

lemma pf_truediv_nonzero: "b \<noteq> Num 0 \<Longrightarrow> \<exists>v. pf_truediv a b = Inr v"
  by (cases a; cases b) simp_all

text \<open>
  Claim C2. With a previous value of zero the growth is not-a-number, whatever the current
  value (also a special one): no division error and no zero. With finite values and a
  non-zero previous value it is \<open>(current - previous) / previous\<close>, so one tenth for 110
  against 100; and no input at all makes the function raise.
\<close>

theorem revenue_growth_spec:
  "(\<forall>x. calculate_revenue_growth x (Num 0) = Inr NaN)
   \<and> (\<forall>c p. p \<noteq> 0 \<longrightarrow> calculate_revenue_growth (Num c) (Num p) = Inr (Num ((c - p) / p)))
   \<and> calculate_revenue_growth (Num 110) (Num 100) = Inr (Num (1 / 10))
   \<and> (\<forall>c p. \<exists>v. calculate_revenue_growth c p = Inr v)"
proof (intro conjI allI impI)
  fix x show "calculate_revenue_growth x (Num 0) = Inr NaN"
    by (simp add: calculate_revenue_growth_def)
next
  fix c p :: real assume "p \<noteq> 0"
  then show "calculate_revenue_growth (Num c) (Num p) = Inr (Num ((c - p) / p))"
    by (simp add: calculate_revenue_growth_def)
next
  show "calculate_revenue_growth (Num 110) (Num 100) = Inr (Num (1 / 10))"
    by (simp add: calculate_revenue_growth_def)
next
  fix c p
  show "\<exists>v. calculate_revenue_growth c p = Inr v"
  proof (cases "p = Num 0")
    case True
    then show ?thesis by (simp add: calculate_revenue_growth_def)
  next
    case False
    then show ?thesis
      using pf_truediv_nonzero [of p "pf_sub c p"]
      by (simp add: calculate_revenue_growth_def pf_eq_zero_iff)
  qed
qed

theorem revenue_growth_spec_witness:
  "(100::real) \<noteq> 0 \<and> calculate_revenue_growth (Num 250) (Num 100) = Inr (Num (3 / 2))
   \<and> calculate_revenue_growth PosInf (Num 0) = Inr NaN"
  using revenue_growth_spec by simp

subsection \<open>Delivery speed categories\<close>

text \<open>
  Claim C9. On a concrete number of days the category is "1-3 days" up to 3, "4-7 days"
  from 4 to 7 and "8+ days" from 8 on; the boundary values 3, 4, 7 and 8 fall as listed.
\<close>

theorem categorize_delivery_speed_spec:
  "(\<forall>d. d \<le> 3 \<longrightarrow> categorize_delivery_speed (Num d) = ''1-3 days'')
   \<and> (\<forall>d. 4 \<le> d \<and> d \<le> 7 \<longrightarrow> categorize_delivery_speed (Num d) = ''4-7 days'')
   \<and> (\<forall>d. 8 \<le> d \<longrightarrow> categorize_delivery_speed (Num d) = ''8+ days'')
   \<and> categorize_delivery_speed (Num 3) = ''1-3 days''
   \<and> categorize_delivery_speed (Num 4) = ''4-7 days''
   \<and> categorize_delivery_speed (Num 7) = ''4-7 days''
   \<and> categorize_delivery_speed (Num 8) = ''8+ days''"
  by (simp add: categorize_delivery_speed_def)

theorem categorize_delivery_speed_spec_witness:
  "(2::real) \<le> 3 \<and> categorize_delivery_speed (Num 2) = ''1-3 days''
   \<and> (4::real) \<le> 5 \<and> (5::real) \<le> 7 \<and> categorize_delivery_speed (Num 5) = ''4-7 days''
   \<and> (8::real) \<le> 30 \<and> categorize_delivery_speed (Num 30) = ''8+ days''"
  using categorize_delivery_speed_spec by simp

text \<open>
  Claim C10. On a not-a-number day count both guards are false, so the function falls
  through to "8+ days": it neither raises nor returns a missing value.
\<close>

theorem categorize_delivery_speed_nan:
  "categorize_delivery_speed NaN = ''8+ days''
   \<and> \<not> pf_le NaN (Num 3) \<and> \<not> pf_le NaN (Num 7)"
  by (simp add: categorize_delivery_speed_def)

subsection \<open>Monthly growth\<close>

lemma length_pct_change: "length (pct_change xs) = length xs"
  by (cases xs) simp_all

lemma pct_change_Suc:
  "Suc i < length xs \<Longrightarrow>
     pct_change xs ! Suc i = pf_sub (np_truediv (xs ! Suc i) (xs ! i)) (Num 1)"
  by (cases xs) simp_all

lemma pct_change_step:
  "pf_sub (np_truediv cur prev) (Num 1) =
     (if prev \<noteq> 0 then Num ((cur - prev) / prev)
      else if 0 < cur then PosInf else if cur < 0 then NegInf else NaN)"
  by (simp add: np_truediv_def field_simps)

lemma monthly_revenue_eq:
  "calculate_monthly_revenue sales_data =
     map (\<lambda>m. (m, sum_list (map price (filter (\<lambda>r. month r = Some m) sales_data))))
       (sort (remdups (List.map_filter month sales_data)))"
  by (simp add: calculate_monthly_revenue_def groupby_sum_eq)

text \<open>
  Claim C4. The monthly growth has the months of the monthly revenue, in ascending order;
  its first entry is not-a-number; every later entry is the change relative to the month
  before it, \<open>(cur - prev) / prev\<close>, when that month's revenue is not zero (on a zero
  revenue the array division leaves an infinity or not-a-number). Monthly revenues of 100,
  150 and 90 give not-a-number, 0.5 and -0.4.
\<close>

theorem monthly_growth_spec:
  "map fst (calculate_monthly_revenue sales_data) = sort (remdups (List.map_filter month sales_data))
   \<and> map fst (calculate_monthly_growth sales_data) = map fst (calculate_monthly_revenue sales_data)
   \<and> (calculate_monthly_revenue sales_data \<noteq> [] \<longrightarrow>
        snd (calculate_monthly_growth sales_data ! 0) = NaN)
   \<and> (\<forall>i. Suc i < length (calculate_monthly_revenue sales_data) \<longrightarrow>
        snd (calculate_monthly_growth sales_data ! Suc i) =
          (let prev = snd (calculate_monthly_revenue sales_data ! i);
               cur = snd (calculate_monthly_revenue sales_data ! Suc i)
           in if prev \<noteq> 0 then Num ((cur - prev) / prev)
              else if 0 < cur then PosInf else if cur < 0 then NegInf else NaN))
   \<and> (\<forall>m1 m2 m3. calculate_monthly_revenue sales_data = [(m1, 100), (m2, 150), (m3, 90)] \<longrightarrow>
        calculate_monthly_growth sales_data = [(m1, NaN), (m2, Num 0.5), (m3, Num (- 0.4))])"
proof (intro conjI allI impI)
  let ?mr = "calculate_monthly_revenue sales_data"
  let ?g = "calculate_monthly_growth sales_data"
  have g: "?g = zip (map fst ?mr) (pct_change (map snd ?mr))"
    by (simp add: calculate_monthly_growth_def Let_def)
  show "map fst ?mr = sort (remdups (List.map_filter month sales_data))"
    by (simp add: monthly_revenue_eq comp_def)
  show "map fst ?g = map fst ?mr"
    unfolding g by (simp add: length_pct_change)
  show "snd (?g ! 0) = NaN" if "?mr \<noteq> []"
    using that unfolding g by (cases ?mr) simp_all
  show "snd (?g ! Suc i) =
          (let prev = snd (?mr ! i); cur = snd (?mr ! Suc i)
           in if prev \<noteq> 0 then Num ((cur - prev) / prev)
              else if 0 < cur then PosInf else if cur < 0 then NegInf else NaN)"
    if "Suc i < length ?mr" for i
  proof -
    have "snd (?g ! Suc i) = pct_change (map snd ?mr) ! Suc i"
      unfolding g using that by (simp add: length_pct_change)
    also have "\<dots> = pf_sub (np_truediv (snd (?mr ! Suc i)) (snd (?mr ! i))) (Num 1)"
      using that by (simp add: pct_change_Suc)
    finally show ?thesis by (simp add: pct_change_step Let_def)
  qed
  show "?g = [(m1, NaN), (m2, Num 0.5), (m3, Num (- 0.4))]"
    if "?mr = [(m1, 100), (m2, 150), (m3, 90)]" for m1 m2 m3
    unfolding g that by (simp add: np_truediv_def)
qed

theorem monthly_growth_spec_witness:
  "calculate_monthly_revenue
     [example_sale ''a'' 60 1, example_sale ''b'' 90 3, example_sale ''c'' 150 2,
      example_sale ''a'' 40 1] = [(1, 100), (2, 150), (3, 90)]
   \<and> calculate_monthly_growth
     [example_sale ''a'' 60 1, example_sale ''b'' 90 3, example_sale ''c'' 150 2,
      example_sale ''a'' 40 1] = [(1, NaN), (2, Num 0.5), (3, Num (- 0.4))]"
proof -
  let ?s = "[example_sale ''a'' 60 1, example_sale ''b'' 90 3, example_sale ''c'' 150 2,
      example_sale ''a'' 40 1]"
  have mr: "calculate_monthly_revenue ?s = [(1, 100), (2, 150), (3, 90)]"
    by (simp add: calculate_monthly_revenue_def groupby_sum_def groupby_def group_rows_def
        example_sale_def)
  from monthly_growth_spec [of ?s] mr
  have "calculate_monthly_growth ?s = [(1, NaN), (2, Num 0.5), (3, Num (- 0.4))]"
    by blast
  with mr show ?thesis by blast
qed

subsection \<open>Missing delivery dates\<close>

lemma delivery_speed_days_add:
  "i < length sales_data \<Longrightarrow>
     delivery_speed_days (add_delivery_speed sales_data ! i) =
       timedelta_days (order_delivered_customer_date (sales_data ! i))
         (order_purchase_timestamp (sales_data ! i))"
  by (simp add: add_delivery_speed_def sales_row.defs sales_speed_row.defs)

lemma truncate_add_delivery_speed:
  "map sales_row.truncate (add_delivery_speed sales_data) = sales_data"
  by (induction sales_data) (simp_all add: add_delivery_speed_def sales_row.defs sales_speed_row.defs)

lemma real_of_int_sum_list: "real_of_int (sum_list xs) = sum_list (map real_of_int xs)"
  by (induction xs) simp_all

lemma average_delivery_time_eq:
  "calculate_average_delivery_time rows =
     (let ds = List.map_filter delivery_speed_days rows
      in if ds = [] then NaN else Num (real_of_int (sum_list ds) / real (length ds)))"
proof -
  have "List.map_filter (\<lambda>r. map_option real_of_int (delivery_speed_days r)) rows
        = map real_of_int (List.map_filter delivery_speed_days rows)"
    by (induction rows) (simp_all split: option.splits)
  then show ?thesis
    by (simp add: calculate_average_delivery_time_def series_mean_eq map_filter_map Let_def
        real_of_int_sum_list comp_def)
qed

lemma map_filter_filter_defined:
  "List.map_filter f (filter (\<lambda>r. f r \<noteq> None) rows) = List.map_filter f rows"
  by (induction rows) (auto split: option.splits)

text \<open>
  Claim C8. A row without a delivery timestamp gets a missing delivery speed (a row with
  both timestamps gets the whole days between them, rounded down), and no row is lost. The
  average delivery time is the mean of the defined delivery speeds alone: it is the same as
  on the table without the rows whose speed is missing, and it is not-a-number only when no
  speed is defined.
\<close>

theorem delivery_speed_missing_spec:
  "length (add_delivery_speed sales_data) = length sales_data
   \<and> (\<forall>i < length sales_data.
         order_delivered_customer_date (sales_data ! i) = None \<longrightarrow>
           delivery_speed_days (add_delivery_speed sales_data ! i) = None)
   \<and> (\<forall>i < length sales_data. \<forall>d p.
         order_delivered_customer_date (sales_data ! i) = Some d
         \<and> order_purchase_timestamp (sales_data ! i) = Some p \<longrightarrow>
           delivery_speed_days (add_delivery_speed sales_data ! i) = Some ((d - p) div ns_per_day))
   \<and> calculate_average_delivery_time rows =
         (let ds = List.map_filter delivery_speed_days rows
          in if ds = [] then NaN else Num (real_of_int (sum_list ds) / real (length ds)))
   \<and> calculate_average_delivery_time rows =
         calculate_average_delivery_time (filter (\<lambda>r. delivery_speed_days r \<noteq> None) rows)"
proof (intro conjI allI impI)
  show "length (add_delivery_speed sales_data) = length sales_data"
    by (simp add: add_delivery_speed_def)
  show "delivery_speed_days (add_delivery_speed sales_data ! i) = None"
    if "i < length sales_data" "order_delivered_customer_date (sales_data ! i) = None" for i
    using that by (simp add: delivery_speed_days_add timedelta_days_def)
  show "delivery_speed_days (add_delivery_speed sales_data ! i) = Some ((d - p) div ns_per_day)"
    if "i < length sales_data"
      "order_delivered_customer_date (sales_data ! i) = Some d
       \<and> order_purchase_timestamp (sales_data ! i) = Some p" for i d p
    using that by (simp add: delivery_speed_days_add timedelta_days_def)
  show "calculate_average_delivery_time rows =
         (let ds = List.map_filter delivery_speed_days rows
          in if ds = [] then NaN else Num (real_of_int (sum_list ds) / real (length ds)))"
    by (rule average_delivery_time_eq)
  show "calculate_average_delivery_time rows =
         calculate_average_delivery_time (filter (\<lambda>r. delivery_speed_days r \<noteq> None) rows)"
    by (simp only: average_delivery_time_eq map_filter_filter_defined)
qed

theorem delivery_speed_missing_spec_witness:
  "map delivery_speed_days
     (add_delivery_speed
        [example_timed_sale ''a'' (Some 0) (Some (2 * ns_per_day + 5)),
         example_timed_sale ''b'' (Some 1000) None,
         example_timed_sale ''c'' (Some ns_per_day) (Some (6 * ns_per_day - 1))])
     = [Some 2, None, Some 4]
   \<and> calculate_average_delivery_time
     (add_delivery_speed
        [example_timed_sale ''a'' (Some 0) (Some (2 * ns_per_day + 5)),
         example_timed_sale ''b'' (Some 1000) None,
         example_timed_sale ''c'' (Some ns_per_day) (Some (6 * ns_per_day - 1))])
     = Num 3
   \<and> delivery_speed_days
     (add_delivery_speed
        [example_timed_sale ''a'' (Some 0) (Some (2 * ns_per_day + 5)),
         example_timed_sale ''b'' (Some 1000) None,
         example_timed_sale ''c'' (Some ns_per_day) (Some (6 * ns_per_day - 1))] ! 1) = None"
proof -
  let ?s = "[example_timed_sale ''a'' (Some 0) (Some (2 * ns_per_day + 5)),
         example_timed_sale ''b'' (Some 1000) None,
         example_timed_sale ''c'' (Some ns_per_day) (Some (6 * ns_per_day - 1))]"
  note spec = delivery_speed_missing_spec [of ?s "add_delivery_speed ?s"]
  have d1: "delivery_speed_days (add_delivery_speed ?s ! 1) = None"
    using spec [THEN conjunct2, THEN conjunct1, rule_format, of 1]
    by (simp add: example_timed_sale_def)
  have m: "map delivery_speed_days (add_delivery_speed ?s) = [Some 2, None, Some 4]"
    by (simp add: add_delivery_speed_def example_timed_sale_def timedelta_days_def ns_per_day_def
        sales_row.defs sales_speed_row.defs)
  have "calculate_average_delivery_time (add_delivery_speed ?s) =
         (let ds = List.map_filter delivery_speed_days (add_delivery_speed ?s)
          in if ds = [] then NaN else Num (real_of_int (sum_list ds) / real (length ds)))"
    using spec by blast
  also have "List.map_filter delivery_speed_days (add_delivery_speed ?s)
      = List.map_filter (\<lambda>x. x) (map delivery_speed_days (add_delivery_speed ?s))"
    by (simp add: map_filter_map)
  finally have "calculate_average_delivery_time (add_delivery_speed ?s) = Num 3"
    unfolding m by simp
  with m d1 show ?thesis by simp
qed

subsection \<open>Review score distribution\<close>

lemma sort_key_fst_unique:
  assumes "distinct (map fst ys)" and "set ys = (\<lambda>k. (k, F k)) ` set ks"
  shows "sort_key fst ys = map (\<lambda>k. (k, F k)) (sort (remdups ks))"
    (is "?L = ?R")
proof (rule map_sorted_distinct_set_unique [where f = fst])
  have set_eq: "set ?L = set ?R"
    using assms(2) by simp
  have fstR: "map fst ?R = sort (remdups ks)"
    by (simp add: comp_def)
  show "set ?L = set ?R" by (rule set_eq)
  show "inj_on fst (set ?L \<union> set ?R)"
    unfolding set_eq by (auto simp: inj_on_def)
  show "sorted (map fst ?L)" by simp
  show "sorted (map fst ?R)" unfolding fstR by simp
  show "distinct (map fst ?R)" unfolding fstR by simp
  from assms(1) show "distinct (map fst ?L)"
    by (simp add: distinct_map)
qed

lemma distinct_map_sort_key: "distinct (map f (sort_key g xs)) = distinct (map f xs)"
  by (simp add: distinct_map)

lemma sum_list_insort_key:
  "sum_list (map f (insort_key g x xs)) = f x + sum_list (map f xs)"
  for f :: "'a \<Rightarrow> nat"
  by (induction xs) simp_all

lemma sum_list_sort_key:
  "sum_list (map f (sort_key g xs)) = sum_list (map f xs)"
  for f :: "'a \<Rightarrow> nat"
  by (induction xs) (simp_all add: sum_list_insort_key)

lemma sum_lengths_group_insert:
  "sum_list (map (\<lambda>g. length (snd g)) (group_insert k v gs)) =
     Suc (sum_list (map (\<lambda>g. length (snd g)) gs))"
  by (induction gs) auto

lemma sum_lengths_group_rows:
  "sum_list (map (\<lambda>g. length (snd g)) (group_rows Some (\<lambda>x. x) xs)) = length xs"
proof (induction xs rule: rev_induct)
  case Nil
  then show ?case by (simp add: group_rows_def)
next
  case (snoc x xs)
  then show ?case by (simp add: group_rows_snoc sum_lengths_group_insert)
qed

lemma value_counts_normalized_sorted:
  "sort_index (value_counts_normalized xs) =
     map (\<lambda>k. (k, real (count_list xs k) / real (length xs))) (sort (remdups xs))"
proof -
  let ?G = "group_rows Some (\<lambda>x. x) xs"
  let ?counts = "sort_key (\<lambda>kc. - int (snd kc)) (map (\<lambda>(k, vs). (k, length vs)) ?G)"
  have total: "sum_list (map snd ?counts) = length xs"
    using sum_lengths_group_rows [of xs]
    by (simp add: sum_list_sort_key comp_def case_prod_unfold)
  let ?ys = "map (\<lambda>(k, c). (k, real c / real (length xs))) ?counts"
  have vc: "value_counts_normalized xs = ?ys"
    unfolding value_counts_normalized_def Let_def total ..
  have fst_ys: "map fst ?ys = map fst ?counts"
    by (simp add: comp_def case_prod_unfold)
  have fst_counts: "map fst (map (\<lambda>(k, vs). (k, length vs)) ?G) = map fst ?G"
    by (simp add: comp_def case_prod_unfold)
  have d: "distinct (map fst ?ys)"
    unfolding fst_ys by (simp only: distinct_map_sort_key fst_counts distinct_group_rows)
  have "set ?ys = (\<lambda>g. (fst g, real (length (snd g)) / real (length xs))) ` set ?G"
    by (simp add: image_image case_prod_unfold)
  also have "\<dots> = (\<lambda>k. (k, real (count_list xs k) / real (length xs))) ` set xs"
    by (simp add: set_group_rows image_image map_filter_Some count_list_eq_length_filter eq_commute
        del: set_map)
  finally have s: "set ?ys = (\<lambda>k. (k, real (count_list xs k) / real (length xs))) ` set xs" .
  show ?thesis
    unfolding sort_index_def vc by (rule sort_key_fst_unique [OF d s])
qed

lemma proportions_sum:
  assumes "xs \<noteq> []"
  shows "sum_list (map (\<lambda>k. real (count_list xs k) / real (length xs)) (sort (remdups xs))) = 1"
proof -
  have "sum_list (map (\<lambda>k. real (count_list xs k) / real (length xs)) (sort (remdups xs)))
        = (\<Sum>k \<in> set xs. real (count_list xs k) / real (length xs))"
    using sum_list_distinct_conv_sum_set [of "sort (remdups xs)"] by simp
  also have "\<dots> = real (\<Sum>k \<in> set xs. count_list xs k) / real (length xs)"
    by (simp add: sum_divide_distrib)
  also have "(\<Sum>k \<in> set xs. count_list xs k) = length xs"
    by (rule sum_count_set) simp_all
  finally show ?thesis using assms by simp
qed

lemma set_drop_duplicates: "set (drop_duplicates xs) = set xs"
  by (induction xs rule: drop_duplicates.induct) auto

lemma review_score_distribution_eq:
  "calculate_review_score_distribution sales_data reviews =
     (let scores = map r_review_score
            (filter (\<lambda>rv. r_order_id rv \<in> order_id ` set sales_data) reviews)
      in map (\<lambda>s. (s, real (count_list scores s) / real (length scores))) (sort (remdups scores)))"
  by (simp add: calculate_review_score_distribution_def Let_def set_drop_duplicates
      value_counts_normalized_sorted)

text \<open>
  Claim C7. The distribution lists the scores of the reviews whose order occurs in the
  sales table, in ascending order and each once, with the share of the reviews that carry
  the score; a score that does not occur is absent, every listed share is positive, and
  when at least one review is left the shares add up to one. Scores 5, 5, 4, 3 give
  3: 0.25, 4: 0.25, 5: 0.5.
\<close>

theorem review_score_distribution_spec:
  "(let scores = map r_review_score
            (filter (\<lambda>rv. r_order_id rv \<in> order_id ` set sales_data) reviews);
        dist = calculate_review_score_distribution sales_data reviews
    in dist = map (\<lambda>s. (s, real (count_list scores s) / real (length scores)))
                (sort (remdups scores))
       \<and> sorted (map fst dist) \<and> distinct (map fst dist)
       \<and> set (map fst dist) = set scores
       \<and> (\<forall>sp \<in> set dist. 0 < snd sp)
       \<and> (scores \<noteq> [] \<longrightarrow> sum_list (map snd dist) = 1)
       \<and> (scores = [5, 5, 4, 3] \<longrightarrow> dist = [(3, 0.25), (4, 0.25), (5, 0.5)]))"
proof -
  define scores where "scores = map r_review_score
            (filter (\<lambda>rv. r_order_id rv \<in> order_id ` set sales_data) reviews)"
  define dist where "dist = calculate_review_score_distribution sales_data reviews"
  have eq: "dist = map (\<lambda>s. (s, real (count_list scores s) / real (length scores)))
                (sort (remdups scores))"
    unfolding dist_def scores_def review_score_distribution_eq Let_def ..
  have fsts: "map fst dist = sort (remdups scores)"
    unfolding eq by (simp add: comp_def)
  have pos: "0 < snd sp" if "sp \<in> set dist" for sp
  proof -
    from that obtain s where s: "s \<in> set scores"
      and sp: "sp = (s, real (count_list scores s) / real (length scores))"
      unfolding eq by auto
    from s have "count_list scores s \<noteq> 0" "scores \<noteq> []"
      by (auto simp: count_list_0_iff)
    then have "0 < count_list scores s" "0 < length scores"
      by simp_all
    then show ?thesis by (simp add: sp)
  qed
  have total: "sum_list (map snd dist) = 1" if "scores \<noteq> []"
    unfolding eq using proportions_sum [OF that] by (simp add: comp_def)
  have ex: "dist = [(3, 0.25), (4, 0.25), (5, 0.5)]" if "scores = [5, 5, 4, 3]"
    unfolding eq that by simp
  have "dist = map (\<lambda>s. (s, real (count_list scores s) / real (length scores)))
                (sort (remdups scores))
       \<and> sorted (map fst dist) \<and> distinct (map fst dist)
       \<and> set (map fst dist) = set scores
       \<and> (\<forall>sp \<in> set dist. 0 < snd sp)
       \<and> (scores \<noteq> [] \<longrightarrow> sum_list (map snd dist) = 1)
       \<and> (scores = [5, 5, 4, 3] \<longrightarrow> dist = [(3, 0.25), (4, 0.25), (5, 0.5)])"
    using eq pos total ex unfolding fsts by simp
  then show ?thesis
    unfolding scores_def dist_def Let_def .
qed

theorem review_score_distribution_spec_witness:
  "calculate_review_score_distribution
     [example_sale ''a'' 10 1, example_sale ''a'' 20 1, example_sale ''b'' 15 1,
      example_sale ''c'' 5 2, example_sale ''d'' 5 2]
     [example_review ''a'' 5, example_review ''zz'' 1, example_review ''b'' 5,
      example_review ''c'' 4, example_review ''d'' 3]
     = [(3, 0.25), (4, 0.25), (5, 0.5)]
   \<and> sum_list (map snd (calculate_review_score_distribution
     [example_sale ''a'' 10 1, example_sale ''a'' 20 1, example_sale ''b'' 15 1,
      example_sale ''c'' 5 2, example_sale ''d'' 5 2]
     [example_review ''a'' 5, example_review ''zz'' 1, example_review ''b'' 5,
      example_review ''c'' 4, example_review ''d'' 3])) = 1"
proof -
  let ?s = "[example_sale ''a'' 10 1, example_sale ''a'' 20 1, example_sale ''b'' 15 1,
      example_sale ''c'' 5 2, example_sale ''d'' 5 2]"
  let ?r = "[example_review ''a'' 5, example_review ''zz'' 1, example_review ''b'' 5,
      example_review ''c'' 4, example_review ''d'' 3]"
  have sc: "map r_review_score (filter (\<lambda>rv. r_order_id rv \<in> order_id ` set ?s) ?r) = [5, 5, 4, 3]"
    by (simp add: example_sale_def example_review_def)
  from review_score_distribution_spec [of ?s ?r]
  show ?thesis unfolding Let_def sc by simp
qed

subsection \<open>Category revenue\<close>

lemma merge_inner_Nil: "merge_inner lkey rkey [] right = []"
  by (simp add: merge_inner_def)

lemma merge_inner_Cons:
  "merge_inner lkey rkey (l # left) right =
     map (Pair l) (filter (\<lambda>r. rkey r = lkey l) right) @ merge_inner lkey rkey left right"
  by (simp add: merge_inner_def)

lemma set_merge_inner:
  "set (merge_inner lkey rkey left right) =
     {(l, r). l \<in> set left \<and> r \<in> set right \<and> rkey r = lkey l}"
  by (auto simp: merge_inner_def)

lemma merge_inner_filter_right:
  "merge_inner lkey rkey left (filter (\<lambda>r. rkey r \<in> lkey ` set left) right) =
     merge_inner lkey rkey left right"
proof -
  have "filter (\<lambda>r. rkey r = lkey l) (filter (\<lambda>r. rkey r \<in> lkey ` set left) right)
        = filter (\<lambda>r. rkey r = lkey l) right" if "l \<in> set left" for l
    using that by (auto intro: filter_cong)
  then show ?thesis
    unfolding merge_inner_def by (auto intro!: arg_cong [where f = concat])
qed

lemma sum_grouped_merge:
  "sum_list (map (\<lambda>(l, r). f r) (filter (\<lambda>(l, r). P l) (merge_inner lkey rkey left right))) =
     sum_list (map (\<lambda>l. sum_list (map f (filter (\<lambda>r. rkey r = lkey l) right))) (filter P left))"
  for f :: "'r \<Rightarrow> real"
proof (induction left)
  case Nil
  then show ?case by (simp add: merge_inner_Nil)
next
  case (Cons l left)
  have "map (\<lambda>(l, r). f r) (filter (\<lambda>(l, r). P l) (map (Pair l) xs)) =
        (if P l then map f xs else [])" for xs
    by (induction xs) simp_all
  with Cons show ?case
    by (simp add: merge_inner_Cons)
qed

lemma sorted_desc_sort_values:
  "sorted_wrt (\<lambda>a b. b \<le> a) (map snd (sort_values_desc kvs))"
proof -
  have "sorted (map (\<lambda>kv. - snd kv) (sort_values_desc kvs))"
    unfolding sort_values_desc_def by (rule sorted_sort_key)
  then show ?thesis by (simp add: sorted_wrt_map)
qed

lemma category_revenue_unsorted:
  "groupby_sum (\<lambda>(p, s). p_product_category_name p) (\<lambda>(p, s). price s)
       (merge_inner p_product_id product_id products sales_data) =
     map (\<lambda>c. (c, sum_list (map (\<lambda>p. sum_list (map price
                     (filter (\<lambda>s. product_id s = p_product_id p) sales_data)))
                   (filter (\<lambda>p. p_product_category_name p = Some c) products))))
       (sort (remdups (List.map_filter (\<lambda>(p, s). p_product_category_name p)
          (merge_inner p_product_id product_id products sales_data))))"
proof -
  have "sum_list (map (\<lambda>(p, s). price s)
          (filter (\<lambda>r. (case r of (p, s) \<Rightarrow> p_product_category_name p) = Some c)
             (merge_inner p_product_id product_id products sales_data))) =
        sum_list (map (\<lambda>p. sum_list (map price
                     (filter (\<lambda>s. product_id s = p_product_id p) sales_data)))
                   (filter (\<lambda>p. p_product_category_name p = Some c) products))" for c
    using sum_grouped_merge [of price "\<lambda>p. p_product_category_name p = Some c"
        p_product_id product_id products sales_data]
    by (simp add: case_prod_unfold)
  then show ?thesis
    by (simp add: groupby_sum_eq)
qed

lemma category_revenue_filter:
  "calculate_category_revenue
     (filter (\<lambda>s. product_id s \<in> p_product_id ` set products) sales_data) products =
   calculate_category_revenue sales_data products"
  by (simp only: calculate_category_revenue_def merge_inner_filter_right)

text \<open>
  Claim C6. The category revenue lists each category that some joined row carries, once,
  with the sum of the prices of the sales rows of the products of that category, and the
  sums never increase along the list. A sales row whose product identifier is not in the
  catalog is left out: the result is that of the table without such rows, and adding such
  a row changes nothing.
\<close>

theorem category_revenue_spec:
  "(let res = calculate_category_revenue sales_data products
    in sorted_wrt (\<lambda>a b. b \<le> a) (map snd res)
       \<and> distinct (map fst res)
       \<and> set (map fst res) =
           {c. \<exists>p \<in> set products. \<exists>s \<in> set sales_data.
                 product_id s = p_product_id p \<and> p_product_category_name p = Some c}
       \<and> (\<forall>cv \<in> set res.
             snd cv = sum_list (map (\<lambda>p. sum_list (map price
                          (filter (\<lambda>s. product_id s = p_product_id p) sales_data)))
                        (filter (\<lambda>p. p_product_category_name p = Some (fst cv)) products)))
       \<and> res = calculate_category_revenue
                 (filter (\<lambda>s. product_id s \<in> p_product_id ` set products) sales_data) products
       \<and> (\<forall>s. product_id s \<notin> p_product_id ` set products \<longrightarrow>
             calculate_category_revenue (s # sales_data) products = res))"
proof -
  define merged where "merged = merge_inner p_product_id product_id products sales_data"
  define tot where "tot = (\<lambda>c. sum_list (map (\<lambda>p. sum_list (map price
                     (filter (\<lambda>s. product_id s = p_product_id p) sales_data)))
                   (filter (\<lambda>p. p_product_category_name p = Some c) products)))"
  define cats where "cats = List.map_filter (\<lambda>(p, s). p_product_category_name p) merged"
  define res where "res = calculate_category_revenue sales_data products"
  have res: "res = sort_values_desc (map (\<lambda>c. (c, tot c)) (sort (remdups cats)))"
    unfolding res_def calculate_category_revenue_def Let_def category_revenue_unsorted
      cats_def merged_def tot_def ..
  have 1: "sorted_wrt (\<lambda>a b. b \<le> a) (map snd res)"
    unfolding res by (rule sorted_desc_sort_values)
  have 2: "distinct (map fst res)"
    unfolding res sort_values_desc_def by (simp add: distinct_map_sort_key comp_def)
  have set_res: "set res = (\<lambda>c. (c, tot c)) ` set cats"
    unfolding res sort_values_desc_def by simp
  have "set cats = {c. \<exists>p \<in> set products. \<exists>s \<in> set sales_data.
                 product_id s = p_product_id p \<and> p_product_category_name p = Some c}"
    unfolding cats_def merged_def by (auto simp: set_map_filter set_merge_inner)
  then have 3: "set (map fst res) = {c. \<exists>p \<in> set products. \<exists>s \<in> set sales_data.
                 product_id s = p_product_id p \<and> p_product_category_name p = Some c}"
    by (simp add: set_res image_image)
  have 4: "\<forall>cv \<in> set res. snd cv = tot (fst cv)"
    by (auto simp: set_res)
  have 5: "res = calculate_category_revenue
                 (filter (\<lambda>s. product_id s \<in> p_product_id ` set products) sales_data) products"
    unfolding res_def by (simp only: category_revenue_filter)
  have 6: "calculate_category_revenue (s # sales_data) products = res"
    if "product_id s \<notin> p_product_id ` set products" for s
  proof -
    have "calculate_category_revenue (s # sales_data) products =
          calculate_category_revenue
            (filter (\<lambda>s. product_id s \<in> p_product_id ` set products) (s # sales_data)) products"
      by (simp only: category_revenue_filter)
    also have "\<dots> = res"
      using that 5 by simp
    finally show ?thesis .
  qed
  from 1 2 3 4 5 6 show ?thesis
    unfolding res_def tot_def Let_def by blast
qed

theorem category_revenue_spec_witness:
  "calculate_category_revenue
     [example_product_sale ''p1'' 10, example_product_sale ''p2'' 50,
      example_product_sale ''p4'' 5, example_product_sale ''p3'' 7]
     [example_product ''p1'' (Some ''toys''), example_product ''p2'' (Some ''books''),
      example_product ''p3'' None, example_product ''p4'' (Some ''toys'')]
     = [(''books'', 50), (''toys'', 15)]
   \<and> calculate_category_revenue
     (example_product_sale ''p9'' 1000 #
      [example_product_sale ''p1'' 10, example_product_sale ''p2'' 50,
       example_product_sale ''p4'' 5, example_product_sale ''p3'' 7])
     [example_product ''p1'' (Some ''toys''), example_product ''p2'' (Some ''books''),
      example_product ''p3'' None, example_product ''p4'' (Some ''toys'')]
     = [(''books'', 50), (''toys'', 15)]"
proof -
  let ?s = "[example_product_sale ''p1'' 10, example_product_sale ''p2'' 50,
      example_product_sale ''p4'' 5, example_product_sale ''p3'' 7]"
  let ?p = "[example_product ''p1'' (Some ''toys''), example_product ''p2'' (Some ''books''),
      example_product ''p3'' None, example_product ''p4'' (Some ''toys'')]"
  have r: "calculate_category_revenue ?s ?p = [(''books'', 50), (''toys'', 15)]"
    by (simp add: calculate_category_revenue_def merge_inner_def groupby_sum_def groupby_def
        group_rows_def sort_values_desc_def example_product_def example_product_sale_def)
  have u: "product_id (example_product_sale ''p9'' 1000) \<notin> p_product_id ` set ?p"
    by (simp add: example_product_def example_product_sale_def)
  from category_revenue_spec [of ?s ?p]
  have "calculate_category_revenue (example_product_sale ''p9'' 1000 # ?s) ?p =
        calculate_category_revenue ?s ?p"
    unfolding Let_def using u by blast
  with r show ?thesis by simp
qed

subsection \<open>Assembling the sales table\<close>


lemma length_merge_inner:
  "length (merge_inner lkey rkey left right) =
     sum_list (map (\<lambda>l. length (filter (\<lambda>r. rkey r = lkey l) right)) left)"
  by (induction left) (simp_all add: merge_inner_Nil merge_inner_Cons)







subsection \<open>Delivery speed and review score\<close>

lemma distinct_drop_duplicates: "distinct (drop_duplicates xs)"
  by (induction xs rule: drop_duplicates.induct) (simp_all add: set_drop_duplicates)

lemma series_mean_defined:
  "series_mean (map (\<lambda>t. Some (f t)) ys) =
     (if ys = [] then NaN else Num (sum_list (map f ys) / real (length ys)))"
  by (simp add: series_mean_eq map_filter_map map_filter_Some Let_def)

lemma sort_remdups_cong: "set xs = set ys \<Longrightarrow> sort (remdups xs) = sort (remdups ys)"
  by (rule sorted_distinct_set_unique) simp_all

lemma groupby_mean_eq:
  "groupby_mean key val rows =
     map (\<lambda>k. (k, series_mean (map val (filter (\<lambda>r. key r = Some k) rows))))
       (sort (remdups (List.map_filter key rows)))"
  by (simp add: groupby_mean_def groupby_eq comp_def)

lemma mean_by_reindex:
  fixes g :: "'p \<Rightarrow> real"
  assumes "distinct xs" "distinct ys"
    and "inj_on a (set xs)" "inj_on b (set ys)"
    and "a ` set xs = b ` set ys"
    and "\<And>x. x \<in> set xs \<Longrightarrow> f x = g (a x)"
    and "\<And>y. y \<in> set ys \<Longrightarrow> h y = g (b y)"
  shows "sum_list (map f xs) = sum_list (map h ys) \<and> length xs = length ys"
proof -
  have "sum_list (map f xs) = sum f (set xs)"
    using assms(1) by (simp add: sum_list_distinct_conv_sum_set)
  also have "\<dots> = sum (g \<circ> a) (set xs)"
    using assms(6) by (intro sum.cong) simp_all
  also have "\<dots> = sum g (a ` set xs)"
    using assms(3) by (simp add: sum.reindex)
  also have "\<dots> = sum g (b ` set ys)"
    by (simp only: assms(5))
  also have "\<dots> = sum (g \<circ> b) (set ys)"
    using assms(4) by (simp add: sum.reindex)
  also have "\<dots> = sum h (set ys)"
    using assms(7) by (intro sum.cong) simp_all
  also have "\<dots> = sum_list (map h ys)"
    using assms(2) by (simp add: sum_list_distinct_conv_sum_set)
  finally have s: "sum_list (map f xs) = sum_list (map h ys)" .
  have "length xs = card (a ` set xs)"
    using assms(1,3) by (simp add: card_image distinct_card)
  also have "\<dots> = card (b ` set ys)"
    by (simp only: assms(5))
  also have "\<dots> = length ys"
    using assms(2,4) by (simp add: card_image distinct_card)
  finally show ?thesis using s by simp
qed

lemma delivery_review_correlation_eq:
  fixes sales :: "'a sales_time_row_scheme list"
  assumes H1: "distinct (map r_order_id reviews)"
    and H2: "\<forall>r1 \<in> set sales. \<forall>r2 \<in> set sales. order_id r1 = order_id r2 \<longrightarrow>
               delivery_speed_days r1 = delivery_speed_days r2
               \<and> delivery_time r1 = delivery_time r2"
  shows "calculate_delivery_review_correlation sales reviews =
     map (\<lambda>c. (c, Num (real_of_int (sum_list (map r_review_score
                      (filter (\<lambda>rv. \<exists>s \<in> set sales. order_id s = r_order_id rv
                                     \<and> delivery_time s = c) reviews)))
                  / real (length
                      (filter (\<lambda>rv. \<exists>s \<in> set sales. order_id s = r_order_id rv
                                     \<and> delivery_time s = c) reviews)))))
       (sort (remdups (map delivery_time
          (filter (\<lambda>s. order_id s \<in> r_order_id ` set reviews) sales))))"
proof -
  define P where "P = drop_duplicates
            (map (\<lambda>(s, rv). (order_id s, delivery_speed_days s, delivery_time s, r_review_score rv))
               (merge_inner order_id r_order_id sales reviews))"
  define R where "R = (\<lambda>c. filter (\<lambda>rv. \<exists>s \<in> set sales. order_id s = r_order_id rv
                                     \<and> delivery_time s = c) reviews)"
  define K where "K = map delivery_time
          (filter (\<lambda>s. order_id s \<in> r_order_id ` set reviews) sales)"
  have setP: "set P = {(order_id s, delivery_speed_days s, delivery_time s, r_review_score rv)
                       | s rv. s \<in> set sales \<and> rv \<in> set reviews \<and> r_order_id rv = order_id s}"
    unfolding P_def by (force simp: set_drop_duplicates set_merge_inner image_iff)
  have dP: "distinct P"
    unfolding P_def by (rule distinct_drop_duplicates)
  have res: "calculate_delivery_review_correlation sales reviews =
      map (\<lambda>c. (c, series_mean (map (\<lambda>t. Some (real_of_int (snd (snd (snd t)))))
                       (filter (\<lambda>t. fst (snd (snd t)) = c) P))))
        (sort (remdups (map (\<lambda>t. fst (snd (snd t))) P)))"
    unfolding calculate_delivery_review_correlation_def Let_def groupby_mean_eq P_def [symmetric]
    by (simp add: case_prod_unfold map_filter_Some)
  have keys: "sort (remdups (map (\<lambda>t. fst (snd (snd t))) P)) = sort (remdups K)"
  proof (rule sort_remdups_cong)
    show "set (map (\<lambda>t. fst (snd (snd t))) P) = set K"
      unfolding K_def by (force simp: setP image_iff)
  qed
  have injR: "inj_on r_order_id (set reviews)" and dR: "distinct reviews"
    using H1 by (simp_all add: distinct_map)
  have per: "series_mean (map (\<lambda>t. Some (real_of_int (snd (snd (snd t)))))
                       (filter (\<lambda>t. fst (snd (snd t)) = c) P)) =
             Num (real_of_int (sum_list (map r_review_score (R c))) / real (length (R c)))"
    if c: "c \<in> set K" for c
  proof -
    let ?Pc = "filter (\<lambda>t. fst (snd (snd t)) = c) P"
    let ?a = "\<lambda>t :: string \<times> int option \<times> string \<times> int. (fst t, snd (snd (snd t)))"
    let ?b = "\<lambda>rv. (r_order_id rv, r_review_score rv)"
    have 1: "inj_on ?a (set ?Pc)"
      using H2 by (auto simp: inj_on_def setP)
    have 2: "inj_on ?b (set (R c))"
      using injR by (auto simp: inj_on_def R_def)
    have 3: "?a ` set ?Pc = ?b ` set (R c)"
      unfolding R_def by (force simp: setP image_iff)
    have m: "sum_list (map (\<lambda>t. real_of_int (snd (snd (snd t)))) ?Pc)
               = sum_list (map (\<lambda>rv. real_of_int (r_review_score rv)) (R c))
             \<and> length ?Pc = length (R c)"
      by (rule mean_by_reindex [where a = ?a and b = ?b and g = "\<lambda>p. real_of_int (snd p)"])
         (use dP dR 1 2 3 in \<open>simp_all add: R_def\<close>)
    from c obtain s where "s \<in> set sales" "order_id s \<in> r_order_id ` set reviews"
      "delivery_time s = c"
      unfolding K_def by auto
    then have "R c \<noteq> []"
      unfolding R_def by (force simp: filter_empty_conv image_iff)
    with m have ne: "?Pc \<noteq> []" by (metis length_0_conv)
    have "sum_list (map (\<lambda>rv. real_of_int (r_review_score rv)) (R c))
          = real_of_int (sum_list (map r_review_score (R c)))"
      by (simp add: real_of_int_sum_list comp_def)
    with m ne show ?thesis
      by (simp add: series_mean_defined)
  qed
  show ?thesis
    unfolding res keys using per
    unfolding R_def K_def by (simp cong: map_cong)
qed

text \<open>
  Claim C3. Let every order have at most one review and let the rows of an order agree on
  the delivery speed and on the delivery category. Then the table lists, in ascending
  order, the categories of the reviewed orders, each with the mean of the scores of the
  reviews whose order is in that category: every review, hence every reviewed order,
  enters that mean once, however many rows the order has. So a table with the same orders,
  speeds and categories but other numbers of rows per order gives the same result.
\<close>

theorem delivery_review_correlation_spec:
  "distinct (map r_order_id reviews)
   \<and> (\<forall>r1 \<in> set sales. \<forall>r2 \<in> set sales. order_id r1 = order_id r2 \<longrightarrow>
               delivery_speed_days r1 = delivery_speed_days r2
               \<and> delivery_time r1 = delivery_time r2)
   \<longrightarrow>
     calculate_delivery_review_correlation sales reviews =
       map (\<lambda>c. (c, Num (real_of_int (sum_list (map r_review_score
                      (filter (\<lambda>rv. \<exists>s \<in> set sales. order_id s = r_order_id rv
                                     \<and> delivery_time s = c) reviews)))
                  / real (length
                      (filter (\<lambda>rv. \<exists>s \<in> set sales. order_id s = r_order_id rv
                                     \<and> delivery_time s = c) reviews)))))
         (sort (remdups (map delivery_time
            (filter (\<lambda>s. order_id s \<in> r_order_id ` set reviews) sales))))
     \<and> (\<forall>sales'.
           (\<lambda>s. (order_id s, delivery_speed_days s, delivery_time s)) ` set sales' =
           (\<lambda>s. (order_id s, delivery_speed_days s, delivery_time s)) ` set sales
           \<longrightarrow> calculate_delivery_review_correlation sales' reviews =
               calculate_delivery_review_correlation sales reviews)"
proof (intro impI conjI allI)
  assume H: "distinct (map r_order_id reviews)
   \<and> (\<forall>r1 \<in> set sales. \<forall>r2 \<in> set sales. order_id r1 = order_id r2 \<longrightarrow>
               delivery_speed_days r1 = delivery_speed_days r2
               \<and> delivery_time r1 = delivery_time r2)"
  then have H1: "distinct (map r_order_id reviews)"
    and H2: "\<forall>r1 \<in> set sales. \<forall>r2 \<in> set sales. order_id r1 = order_id r2 \<longrightarrow>
               delivery_speed_days r1 = delivery_speed_days r2
               \<and> delivery_time r1 = delivery_time r2"
    by blast+
  show eq: "calculate_delivery_review_correlation sales reviews =
       map (\<lambda>c. (c, Num (real_of_int (sum_list (map r_review_score
                      (filter (\<lambda>rv. \<exists>s \<in> set sales. order_id s = r_order_id rv
                                     \<and> delivery_time s = c) reviews)))
                  / real (length
                      (filter (\<lambda>rv. \<exists>s \<in> set sales. order_id s = r_order_id rv
                                     \<and> delivery_time s = c) reviews)))))
         (sort (remdups (map delivery_time
            (filter (\<lambda>s. order_id s \<in> r_order_id ` set reviews) sales))))"
    by (rule delivery_review_correlation_eq [OF H1 H2])
  fix sales' :: "'c sales_time_row_scheme list"
  assume img: "(\<lambda>s. (order_id s, delivery_speed_days s, delivery_time s)) ` set sales' =
           (\<lambda>s. (order_id s, delivery_speed_days s, delivery_time s)) ` set sales"
  have into_sales: "\<exists>s \<in> set sales. order_id s = order_id s' \<and> delivery_speed_days s = delivery_speed_days s'
              \<and> delivery_time s = delivery_time s'" if "s' \<in> set sales'" for s'
  proof -
    from that have "(order_id s', delivery_speed_days s', delivery_time s') \<in>
        (\<lambda>s. (order_id s, delivery_speed_days s, delivery_time s)) ` set sales"
      unfolding img [symmetric] by (rule imageI)
    then show ?thesis by auto
  qed
  have from_sales: "\<exists>s' \<in> set sales'. order_id s' = order_id s \<and> delivery_speed_days s' = delivery_speed_days s
              \<and> delivery_time s' = delivery_time s" if "s \<in> set sales" for s
  proof -
    from that have "(order_id s, delivery_speed_days s, delivery_time s) \<in>
        (\<lambda>s. (order_id s, delivery_speed_days s, delivery_time s)) ` set sales'"
      unfolding img by (rule imageI)
    then show ?thesis by auto
  qed
  have H2': "\<forall>r1 \<in> set sales'. \<forall>r2 \<in> set sales'. order_id r1 = order_id r2 \<longrightarrow>
               delivery_speed_days r1 = delivery_speed_days r2
               \<and> delivery_time r1 = delivery_time r2"
  proof (intro ballI impI)
    fix r1 r2 assume r: "r1 \<in> set sales'" "r2 \<in> set sales'" "order_id r1 = order_id r2"
    from into_sales [OF r(1)] into_sales [OF r(2)] obtain s1 s2 where
      "s1 \<in> set sales" "order_id s1 = order_id r1" "delivery_speed_days s1 = delivery_speed_days r1"
      "delivery_time s1 = delivery_time r1"
      "s2 \<in> set sales" "order_id s2 = order_id r2" "delivery_speed_days s2 = delivery_speed_days r2"
      "delivery_time s2 = delivery_time r2"
      by blast
    note s = this
    from H2 s(1,5) have "order_id s1 = order_id s2 \<longrightarrow>
        delivery_speed_days s1 = delivery_speed_days s2 \<and> delivery_time s1 = delivery_time s2"
      by blast
    with s r(3) show "delivery_speed_days r1 = delivery_speed_days r2
               \<and> delivery_time r1 = delivery_time r2"
      by simp
  qed
  have ex: "(\<exists>s \<in> set sales'. order_id s = k \<and> delivery_time s = c) \<longleftrightarrow>
            (\<exists>s \<in> set sales. order_id s = k \<and> delivery_time s = c)" for k c
  proof
    assume "\<exists>s \<in> set sales'. order_id s = k \<and> delivery_time s = c"
    then obtain s' where "s' \<in> set sales'" "order_id s' = k" "delivery_time s' = c" by blast
    with into_sales [of s'] show "\<exists>s \<in> set sales. order_id s = k \<and> delivery_time s = c" by auto
  next
    assume "\<exists>s \<in> set sales. order_id s = k \<and> delivery_time s = c"
    then obtain s where "s \<in> set sales" "order_id s = k" "delivery_time s = c" by blast
    with from_sales [of s] show "\<exists>s \<in> set sales'. order_id s = k \<and> delivery_time s = c" by auto
  qed
  have "set (map delivery_time (filter (\<lambda>s. order_id s \<in> r_order_id ` set reviews) sales')) =
        set (map delivery_time (filter (\<lambda>s. order_id s \<in> r_order_id ` set reviews) sales))"
  proof (intro set_eqI iffI)
    fix c assume "c \<in> set (map delivery_time (filter (\<lambda>s. order_id s \<in> r_order_id ` set reviews) sales'))"
    then obtain s' where "s' \<in> set sales'" "order_id s' \<in> r_order_id ` set reviews"
      "delivery_time s' = c" by auto
    with into_sales [of s'] show "c \<in> set (map delivery_time (filter (\<lambda>s. order_id s \<in> r_order_id ` set reviews) sales))"
      by force
  next
    fix c assume "c \<in> set (map delivery_time (filter (\<lambda>s. order_id s \<in> r_order_id ` set reviews) sales))"
    then obtain s where "s \<in> set sales" "order_id s \<in> r_order_id ` set reviews"
      "delivery_time s = c" by auto
    with from_sales [of s] show "c \<in> set (map delivery_time (filter (\<lambda>s. order_id s \<in> r_order_id ` set reviews) sales'))"
      by force
  qed
  then have keys: "sort (remdups (map delivery_time (filter (\<lambda>s. order_id s \<in> r_order_id ` set reviews) sales'))) =
        sort (remdups (map delivery_time (filter (\<lambda>s. order_id s \<in> r_order_id ` set reviews) sales)))"
    by (rule sort_remdups_cong)
  show "calculate_delivery_review_correlation sales' reviews =
               calculate_delivery_review_correlation sales reviews"
    by (simp only: eq delivery_review_correlation_eq [OF H1 H2'] keys ex)
qed

theorem delivery_review_correlation_spec_witness:
  "distinct (map r_order_id
      [example_review ''a'' 4, example_review ''b'' 2, example_review ''c'' 5,
       example_review ''z'' 1])
   \<and> calculate_delivery_review_correlation
      [example_delivery ''a'' 1 10 (Some 2) ''1-3 days'',
       example_delivery ''a'' 2 20 (Some 2) ''1-3 days'',
       example_delivery ''a'' 3 30 (Some 2) ''1-3 days'',
       example_delivery ''b'' 1 15 (Some 3) ''1-3 days'',
       example_delivery ''c'' 1 5 None ''8+ days'',
       example_delivery ''d'' 1 5 (Some 5) ''4-7 days'']
      [example_review ''a'' 4, example_review ''b'' 2, example_review ''c'' 5,
       example_review ''z'' 1]
     = [(''1-3 days'', Num 3), (''8+ days'', Num 5)]
   \<and> calculate_delivery_review_correlation
      [example_delivery ''a'' 1 10 (Some 2) ''1-3 days'',
       example_delivery ''b'' 1 15 (Some 3) ''1-3 days'',
       example_delivery ''c'' 1 5 None ''8+ days'',
       example_delivery ''d'' 1 5 (Some 5) ''4-7 days'']
      [example_review ''a'' 4, example_review ''b'' 2, example_review ''c'' 5,
       example_review ''z'' 1]
     = [(''1-3 days'', Num 3), (''8+ days'', Num 5)]"
proof -
  let ?s = "[example_delivery ''a'' 1 10 (Some 2) ''1-3 days'',
       example_delivery ''a'' 2 20 (Some 2) ''1-3 days'',
       example_delivery ''a'' 3 30 (Some 2) ''1-3 days'',
       example_delivery ''b'' 1 15 (Some 3) ''1-3 days'',
       example_delivery ''c'' 1 5 None ''8+ days'',
       example_delivery ''d'' 1 5 (Some 5) ''4-7 days'']"
  let ?t = "[example_delivery ''a'' 1 10 (Some 2) ''1-3 days'',
       example_delivery ''b'' 1 15 (Some 3) ''1-3 days'',
       example_delivery ''c'' 1 5 None ''8+ days'',
       example_delivery ''d'' 1 5 (Some 5) ''4-7 days'']"
  let ?r = "[example_review ''a'' 4, example_review ''b'' 2, example_review ''c'' 5,
       example_review ''z'' 1]"
  have h1: "distinct (map r_order_id ?r)"
    by (simp add: example_review_def)
  have h2: "\<forall>r1 \<in> set ?s. \<forall>r2 \<in> set ?s. order_id r1 = order_id r2 \<longrightarrow>
               delivery_speed_days r1 = delivery_speed_days r2
               \<and> delivery_time r1 = delivery_time r2"
    by (simp add: example_delivery_def)
  have img: "(\<lambda>s. (order_id s, delivery_speed_days s, delivery_time s)) ` set ?t =
           (\<lambda>s. (order_id s, delivery_speed_days s, delivery_time s)) ` set ?s"
    by (simp add: example_delivery_def insert_commute)
  note spec = delivery_review_correlation_spec [of ?r ?s, rule_format, OF conjI, OF h1 h2]
  have 1: "calculate_delivery_review_correlation ?s ?r = [(''1-3 days'', Num 3), (''8+ days'', Num 5)]"
    unfolding spec [THEN conjunct1]
    by (simp add: example_delivery_def example_review_def)
  have 2: "calculate_delivery_review_correlation ?t ?r = calculate_delivery_review_correlation ?s ?r"
    using spec [THEN conjunct2, rule_format, of ?t] img by blast
  from h1 1 2 show ?thesis by simp
qed

end
